theory Spec2Isabelle
  imports Main
begin

section \<open>JavaScript values as the page sees them\<close>

text \<open>
  The chat page (\<^verbatim>\<open>frontend/app/page.tsx\<close>) reads every server frame with
  \<^verbatim>\<open>JSON.parse(e.data)\<close> into a value of type \<^verbatim>\<open>any\<close>; TypeScript's
  annotations are erased at run time, so whatever the frame carries flows into the React
  state unchecked. The model therefore keeps such data as run-time values.
  Numbers are mathematical integers plus \<open>NaN\<close>; fractions, infinities and the
  rounding of doubles are outside the model. Strings are lists of 8-bit characters.
\<close>

datatype jsval =
    JUndefined
  | JNull
  | JBool bool
  | JNum int
  | JNaN
  | JStr string
  | JArr "jsval list"
  | JObj "(string \<times> jsval) list"

datatype js_error = SyntaxError | TypeError

text \<open>Decimal rendering of a number (\<^verbatim>\<open>Number.prototype.toString\<close> on an integer).\<close>

definition digit_char :: "nat \<Rightarrow> char" where
  "digit_char d = char_of (48 + d)"

function nat_to_string :: "nat \<Rightarrow> string" where
  "nat_to_string n =
     (if n < 10 then [digit_char n] else nat_to_string (n div 10) @ [digit_char (n mod 10)])"
  by pat_completeness auto
termination
  by (relation "measure id") auto

declare nat_to_string.simps [simp del]

definition int_to_string :: "int \<Rightarrow> string" where
  "int_to_string i = (if i < 0 then CHR ''-'' # nat_to_string (nat (- i)) else nat_to_string (nat i))"

fun join_comma :: "string list \<Rightarrow> string" where
  "join_comma [] = []"
| "join_comma [s] = s"
| "join_comma (s # t # ss) = s @ '','' @ join_comma (t # ss)"

text \<open>
  \<^verbatim>\<open>ToString\<close>: what string concatenation and template literals make of a value. An
  array joins its elements with commas, \<^verbatim>\<open>null\<close> and \<^verbatim>\<open>undefined\<close> elements
  giving the empty string; a plain object gives \<^verbatim>\<open>[object Object]\<close>.
\<close>

fun js_to_string :: "jsval \<Rightarrow> string" where
  "js_to_string JUndefined = ''undefined''"
| "js_to_string JNull = ''null''"
| "js_to_string (JBool b) = (if b then ''true'' else ''false'')"
| "js_to_string (JNum n) = int_to_string n"
| "js_to_string JNaN = ''NaN''"
| "js_to_string (JStr s) = s"
| "js_to_string (JArr xs) =
     join_comma (map (\<lambda>x. if x = JNull \<or> x = JUndefined then [] else js_to_string x) xs)"
| "js_to_string (JObj kvs) = ''[object Object]''"

text \<open>Truthiness, as \<^verbatim>\<open>!x\<close>, \<^verbatim>\<open>x ? a : b\<close> and \<^verbatim>\<open>x || y\<close> test it.\<close>

fun js_falsy :: "jsval \<Rightarrow> bool" where
  "js_falsy JUndefined = True"
| "js_falsy JNull = True"
| "js_falsy (JBool b) = (\<not> b)"
| "js_falsy (JNum n) = (n = 0)"
| "js_falsy JNaN = True"
| "js_falsy (JStr s) = (s = [])"
| "js_falsy (JArr xs) = False"
| "js_falsy (JObj kvs) = False"

text \<open>
  Property read \<^verbatim>\<open>v.k\<close>. Reading a property of \<^verbatim>\<open>null\<close> or \<^verbatim>\<open>undefined\<close>
  throws a TypeError; a missing property reads as \<^verbatim>\<open>undefined\<close>. The names the page
  reads (\<^verbatim>\<open>chunk\<close>, \<^verbatim>\<open>step\<close>, \<^verbatim>\<open>title\<close>, \<^verbatim>\<open>text\<close>, \<^verbatim>\<open>progress\<close>,
  \<^verbatim>\<open>message\<close>, \<^verbatim>\<open>filename\<close>, \<^verbatim>\<open>job_id\<close>) are not inherited properties of any
  built-in prototype, so on a string, number, boolean or array they read as
  \<^verbatim>\<open>undefined\<close>.
\<close>

fun get_prop :: "jsval \<Rightarrow> string \<Rightarrow> js_error + jsval" where
  "get_prop JUndefined k = Inl TypeError"
| "get_prop JNull k = Inl TypeError"
| "get_prop (JObj kvs) k = Inr (case map_of kvs k of None \<Rightarrow> JUndefined | Some v \<Rightarrow> v)"
| "get_prop v k = Inr JUndefined"

text \<open>The binary \<^verbatim>\<open>+\<close>: concatenation if either operand is a string once objects are
  made primitive, numeric addition otherwise.\<close>

fun to_primitive :: "jsval \<Rightarrow> jsval" where
  "to_primitive (JArr xs) = JStr (js_to_string (JArr xs))"
| "to_primitive (JObj kvs) = JStr (js_to_string (JObj kvs))"
| "to_primitive v = v"

fun is_string :: "jsval \<Rightarrow> bool" where
  "is_string (JStr s) = True"
| "is_string v = False"

text \<open>\<^verbatim>\<open>ToNumber\<close> on the non-string primitives; \<open>None\<close> is \<open>NaN\<close>.\<close>

fun to_number :: "jsval \<Rightarrow> int option" where
  "to_number JNull = Some 0"
| "to_number (JBool b) = Some (if b then 1 else 0)"
| "to_number (JNum n) = Some n"
| "to_number v = None"

definition js_plus :: "jsval \<Rightarrow> jsval \<Rightarrow> jsval" where
  "js_plus a b =
     (let pa = to_primitive a; pb = to_primitive b in
      if is_string pa \<or> is_string pb then JStr (js_to_string pa @ js_to_string pb)
      else (case (to_number pa, to_number pb) of
              (Some x, Some y) \<Rightarrow> JNum (x + y)
            | _ \<Rightarrow> JNaN))"

text \<open>
  \<^verbatim>\<open>Object.is\<close>, by which React compares a new state and an effect's dependencies
  with the previous ones. Primitives compare by value; an object or array is only the same
  as itself, and every object the page stores is a fresh one.
\<close>

fun same_value :: "jsval \<Rightarrow> jsval \<Rightarrow> bool" where
  "same_value (JArr xs) b = False"
| "same_value (JObj kvs) b = False"
| "same_value a b = (a = b)"

text \<open>\<^verbatim>\<open>String.prototype.trim\<close>: the white space and line terminators below 256.\<close>

definition js_whitespace :: "char \<Rightarrow> bool" where
  "js_whitespace c = (of_char c \<in> {9, 10, 11, 12, 13, 32, 160 :: nat})"

definition js_trim :: "string \<Rightarrow> string" where
  "js_trim s = rev (dropWhile js_whitespace (rev (dropWhile js_whitespace s)))"

text \<open>
  The \<^verbatim>\<open>data\<close> of an event handed to a listener: absent (the browser's own
  \<^verbatim>\<open>error\<close> event has none), a string that is not JSON, or a string that parses.
  \<^verbatim>\<open>JSON.parse\<close> throws a SyntaxError on the first two.
\<close>

datatype frame_data = NoData | Malformed | Json jsval

fun JSON_parse :: "frame_data \<Rightarrow> js_error + jsval" where
  "JSON_parse NoData = Inl SyntaxError"
| "JSON_parse Malformed = Inl SyntaxError"
| "JSON_parse (Json v) = Inr v"

section \<open>The page state\<close>

datatype role = User | Ai | Tool

text \<open>\<^verbatim>\<open>type Message = { role; text; citations? }\<close>; a Citation is kept as the payload
  object it came in.\<close>

record message =
  role :: role
  msg_text :: jsval
  citations :: "jsval list option"

record event_source =
  es_url :: string
  es_closed :: bool

record upload_progress =
  step :: jsval
  progress :: jsval

text \<open>What a pending \<^verbatim>\<open>setTimeout\<close> callback of the upload listeners will do.\<close>

datatype timer_action = ClearUploadProgress | FinishUpload nat

text \<open>
  The \<^verbatim>\<open>useState\<close> cells and refs of \<^verbatim>\<open>Page\<close>. EventSource objects live in
  \<open>sources\<close> and are named by their position; \<open>streamEv\<close> is the EventSource captured by
  the clean-up closure that the stream effect returned on its last run; \<open>timers\<close> are the
  pending time-outs with their delays in milliseconds.
\<close>

record page_state =
  prompt :: string
  messages :: "message list"
  jobId :: jsval
  uploadProgress :: "upload_progress option"
  uploadedFiles :: "jsval list"
  sseRef :: "nat option"
  uploadSseRef :: "nat option"
  sources :: "event_source list"
  streamEv :: "nat option"
  timers :: "(nat \<times> timer_action) list"

definition initial_state :: page_state where
  "initial_state =
     \<lparr>prompt = [], messages = [], jobId = JNull, uploadProgress = None, uploadedFiles = [],
      sseRef = None, uploadSseRef = None, sources = [], streamEv = None, timers = []\<rparr>"

text \<open>\<^verbatim>\<open>ev.close()\<close>.\<close>

definition close_source :: "nat \<Rightarrow> page_state \<Rightarrow> page_state" where
  "close_source ev st =
     (if ev < length (sources st)
      then st\<lparr>sources := (sources st)[ev := (sources st ! ev)\<lparr>es_closed := True\<rparr>]\<rparr>
      else st)"

section \<open>The generation stream\<close>

text \<open>
  The \<^verbatim>\<open>useEffect\<close> keyed on \<^verbatim>\<open>jobId\<close> (page.tsx, lines 126-178). Its clean-up
  closes the EventSource the effect opened and clears the ref.
\<close>

definition stream_cleanup :: "page_state \<Rightarrow> page_state" where
  "stream_cleanup st =
     (case streamEv st of
        None \<Rightarrow> st
      | Some ev \<Rightarrow> (close_source ev st)\<lparr>sseRef := None\<rparr>)"

definition stream_effect :: "page_state \<Rightarrow> page_state" where
  "stream_effect st =
     (if js_falsy (jobId st) then st\<lparr>streamEv := None\<rparr>
      else
        let st1 = (case sseRef st of
                     None \<Rightarrow> st
                   | Some r \<Rightarrow> (close_source r st)\<lparr>sseRef := None\<rparr>);
            ev = length (sources st1)
        in st1\<lparr>sources := sources st1 @
                   [\<lparr>es_url = ''/api/proxy/stream/'' @ js_to_string (jobId st1), es_closed = False\<rparr>],
                sseRef := Some ev, streamEv := Some ev\<rparr>)"

text \<open>\<^verbatim>\<open>setJobId(v)\<close> followed by the re-render: when the dependency changed, React runs
  the previous clean-up and then the effect.\<close>

definition set_jobId :: "jsval \<Rightarrow> page_state \<Rightarrow> page_state" where
  "set_jobId v st =
     (if same_value (jobId st) v then st\<lparr>jobId := v\<rparr>
      else stream_effect (stream_cleanup (st\<lparr>jobId := v\<rparr>)))"

text \<open>
  The loop shared by the \<^verbatim>\<open>text\<close> and \<^verbatim>\<open>citation\<close> updaters:
  \<^verbatim>\<open>for (let i = updated.length - 1; i >= 0; i--) if (updated[i].role === 'ai') {
  updated[i] = f(updated[i]); return updated }  return prev\<close>.
  The first argument is the number of positions still to visit, so the position visited
  is always inside the list.
\<close>

fun update_last_ai ::
  "nat \<Rightarrow> (message \<Rightarrow> js_error + message) \<Rightarrow> message list \<Rightarrow> js_error + message list" where
  "update_last_ai 0 f ms = Inr ms"
| "update_last_ai (Suc i) f ms =
     (if role (ms ! i) = Ai
      then (case f (ms ! i) of Inl e \<Rightarrow> Inl e | Inr m \<Rightarrow> Inr (ms[i := m]))
      else update_last_ai i f ms)"

text \<open>The \<^verbatim>\<open>text\<close> listener (lines 134-147).\<close>

definition append_chunk :: "jsval \<Rightarrow> message \<Rightarrow> js_error + message" where
  "append_chunk payload m =
     (case get_prop payload ''chunk'' of
        Inl e \<Rightarrow> Inl e
      | Inr c \<Rightarrow> Inr (m\<lparr>msg_text := js_plus (msg_text m) c\<rparr>))"

definition on_text :: "frame_data \<Rightarrow> page_state \<Rightarrow> js_error + page_state" where
  "on_text d st =
     (case JSON_parse d of
        Inl e \<Rightarrow> Inl e
      | Inr payload \<Rightarrow>
          (case update_last_ai (length (messages st)) (append_chunk payload) (messages st) of
             Inl e \<Rightarrow> Inl e
           | Inr ms \<Rightarrow> Inr (st\<lparr>messages := ms\<rparr>)))"

text \<open>The \<^verbatim>\<open>tool\<close> listener (lines 148-151).\<close>

definition on_tool :: "frame_data \<Rightarrow> page_state \<Rightarrow> js_error + page_state" where
  "on_tool d st =
     (case JSON_parse d of
        Inl e \<Rightarrow> Inl e
      | Inr payload \<Rightarrow>
          (case get_prop payload ''step'' of
             Inl e \<Rightarrow> Inl e
           | Inr s \<Rightarrow>
               Inr (st\<lparr>messages := messages st @
                         [\<lparr>role = Tool, msg_text = s, citations = None\<rparr>]\<rparr>)))"

text \<open>The \<^verbatim>\<open>citation\<close> listener (lines 152-168); \<^verbatim>\<open>updated[i].citations || []\<close>.\<close>

definition citations_or_empty :: "message \<Rightarrow> jsval list" where
  "citations_or_empty m = (case citations m of None \<Rightarrow> [] | Some cs \<Rightarrow> cs)"

definition append_citation :: "jsval \<Rightarrow> message \<Rightarrow> js_error + message" where
  "append_citation payload m = Inr (m\<lparr>citations := Some (citations_or_empty m @ [payload])\<rparr>)"

definition on_citation :: "frame_data \<Rightarrow> page_state \<Rightarrow> js_error + page_state" where
  "on_citation d st =
     (case JSON_parse d of
        Inl e \<Rightarrow> Inl e
      | Inr payload \<Rightarrow>
          (case update_last_ai (length (messages st)) (append_citation payload) (messages st) of
             Inl e \<Rightarrow> Inl e
           | Inr ms \<Rightarrow> Inr (st\<lparr>messages := ms\<rparr>)))"

text \<open>The \<^verbatim>\<open>done\<close> listener (lines 169-173) of the EventSource \<open>ev\<close>; it does not read
  the frame's data.\<close>

definition on_done :: "nat \<Rightarrow> frame_data \<Rightarrow> page_state \<Rightarrow> js_error + page_state" where
  "on_done ev d st = Inr (set_jobId JNull ((close_source ev st)\<lparr>sseRef := None\<rparr>))"

text \<open>
  The listeners registered on the generation EventSource \<open>ev\<close>, by frame name, in the
  order of the \<^verbatim>\<open>addEventListener\<close> calls. A frame whose name has no listener is
  dropped by the EventSource. A result \<open>Inl e\<close> is an exception thrown by the listener or
  by the state updater it queued.
\<close>

definition gen_listeners ::
  "nat \<Rightarrow> (string \<times> (frame_data \<Rightarrow> page_state \<Rightarrow> js_error + page_state)) list" where
  "gen_listeners ev =
     [(''text'', on_text), (''tool'', on_tool), (''citation'', on_citation), (''done'', on_done ev)]"

definition gen_frame :: "nat \<Rightarrow> string \<times> frame_data \<Rightarrow> page_state \<Rightarrow> js_error + page_state" where
  "gen_frame ev fr st =
     (case map_of (gen_listeners ev) (fst fr) of
        None \<Rightarrow> Inr st
      | Some h \<Rightarrow> h (snd fr) st)"

text \<open>Frames delivered one after the other on the stream, up to the first exception.\<close>

fun gen_frames :: "nat \<Rightarrow> (string \<times> frame_data) list \<Rightarrow> page_state \<Rightarrow> js_error + page_state" where
  "gen_frames ev [] st = Inr st"
| "gen_frames ev (fr # frs) st =
     (case gen_frame ev fr st of Inl e \<Rightarrow> Inl e | Inr st' \<Rightarrow> gen_frames ev frs st')"

text \<open>\<^verbatim>\<open>statusLabel\<close> (line 180); the ellipsis character of the source is written
  as three dots.\<close>

definition statusLabel :: "page_state \<Rightarrow> string" where
  "statusLabel st = (if js_falsy (jobId st) then ''Ready'' else ''Streaming response...'')"

text \<open>
  The citation badges of one rendered message (lines 264-291): a tool message and a user
  message show none; any other message shows \<^verbatim>\<open>[{i + 1}] {c.title}\<close> for the
  citation \<open>c\<close> at index \<open>i\<close>. A badge is the number shown and the title read.
\<close>

fun badges_from :: "nat \<Rightarrow> jsval list \<Rightarrow> js_error + (nat \<times> jsval) list" where
  "badges_from i [] = Inr []"
| "badges_from i (c # cs) =
     (case get_prop c ''title'' of
        Inl e \<Rightarrow> Inl e
      | Inr t \<Rightarrow>
          (case badges_from (Suc i) cs of
             Inl e \<Rightarrow> Inl e
           | Inr bs \<Rightarrow> Inr ((i + 1, t) # bs)))"

definition citation_badges :: "message \<Rightarrow> js_error + (nat \<times> jsval) list" where
  "citation_badges m =
     (if role m = Tool then Inr []
      else if role m = User then Inr []
      else badges_from 0 (citations_or_empty m))"

section \<open>Sending a prompt\<close>

record request =
  req_method :: string
  req_url :: string
  req_headers :: "(string \<times> string) list"
  req_body :: jsval

text \<open>
  \<^verbatim>\<open>send\<close> (lines 109-124). \<open>reply\<close> is what \<^verbatim>\<open>await res.json()\<close> gives for the
  request, \<open>Inl\<close> when \<^verbatim>\<open>fetch\<close> or \<^verbatim>\<open>res.json()\<close> rejects. The result is the
  list of requests made and the state after the re-render, or the exception that ended
  the call (the state is then as it was). No other event is taken between the request and
  its reply.
\<close>

definition send :: "js_error + jsval \<Rightarrow> page_state \<Rightarrow> request list \<times> (js_error + page_state)" where
  "send reply st =
     (if js_trim (prompt st) = [] then ([], Inr st)
      else
        let req = \<lparr>req_method = ''POST'', req_url = ''/api/proxy/generate'',
                   req_headers = [(''Content-Type'', ''application/json'')],
                   req_body = JObj [(''prompt'', JStr (prompt st))]\<rparr>
        in (case reply of
              Inl e \<Rightarrow> ([req], Inl e)
            | Inr data \<Rightarrow>
                (case get_prop data ''job_id'' of
                   Inl e \<Rightarrow> ([req], Inl e)
                 | Inr jid \<Rightarrow>
                     ([req],
                      Inr (set_jobId jid
                             (st\<lparr>messages := messages st @
                                    [\<lparr>role = User, msg_text = JStr (prompt st), citations = None\<rparr>,
                                     \<lparr>role = Ai, msg_text = JStr [], citations = Some []\<rparr>],
                                  prompt := []\<rparr>))))))"

section \<open>The upload stream\<close>

text \<open>The listeners that \<^verbatim>\<open>handleFileUpload\<close> registers on the upload EventSource
  \<open>ev\<close> (lines 73-97).\<close>

definition upload_on_progress :: "frame_data \<Rightarrow> page_state \<Rightarrow> js_error + page_state" where
  "upload_on_progress d st =
     (case JSON_parse d of
        Inl e \<Rightarrow> Inl e
      | Inr payload \<Rightarrow>
          (case get_prop payload ''text'' of
             Inl e \<Rightarrow> Inl e
           | Inr t \<Rightarrow>
               (case get_prop payload ''progress'' of
                  Inl e \<Rightarrow> Inl e
                | Inr p \<Rightarrow> Inr (st\<lparr>uploadProgress := Some \<lparr>step = t, progress = p\<rparr>\<rparr>))))"

definition upload_on_done :: "nat \<Rightarrow> frame_data \<Rightarrow> page_state \<Rightarrow> js_error + page_state" where
  "upload_on_done ev d st =
     (case JSON_parse d of
        Inl e \<Rightarrow> Inl e
      | Inr payload \<Rightarrow>
          (case get_prop payload ''message'' of
             Inl e \<Rightarrow> Inl e
           | Inr m \<Rightarrow>
               (case get_prop payload ''filename'' of
                  Inl e \<Rightarrow> Inl e
                | Inr f \<Rightarrow>
                    Inr (st\<lparr>uploadProgress := Some \<lparr>step = m, progress = JNum 100\<rparr>,
                            uploadedFiles := uploadedFiles st @ [f],
                            timers := timers st @ [(1500, FinishUpload ev)]\<rparr>))))"

definition upload_on_error :: "nat \<Rightarrow> frame_data \<Rightarrow> page_state \<Rightarrow> js_error + page_state" where
  "upload_on_error ev d st =
     (case (if d = NoData then Inr (JStr ''Connection lost'')
            else (case JSON_parse d of
                    Inl e \<Rightarrow> Inl e
                  | Inr payload \<Rightarrow> get_prop payload ''message'')) of
        Inl e \<Rightarrow> Inl e
      | Inr msg \<Rightarrow>
          Inr ((close_source ev
                  (st\<lparr>uploadProgress :=
                         Some \<lparr>step = JStr (''Error: '' @ js_to_string msg), progress = JNum 0\<rparr>,
                       timers := timers st @ [(3000, ClearUploadProgress)]\<rparr>))
               \<lparr>uploadSseRef := None\<rparr>))"

definition upload_listeners ::
  "nat \<Rightarrow> (string \<times> (frame_data \<Rightarrow> page_state \<Rightarrow> js_error + page_state)) list" where
  "upload_listeners ev =
     [(''progress'', upload_on_progress), (''done'', upload_on_done ev),
      (''error'', upload_on_error ev)]"

definition upload_frame :: "nat \<Rightarrow> string \<times> frame_data \<Rightarrow> page_state \<Rightarrow> js_error + page_state" where
  "upload_frame ev fr st =
     (case map_of (upload_listeners ev) (fst fr) of
        None \<Rightarrow> Inr st
      | Some h \<Rightarrow> h (snd fr) st)"

text \<open>A pending time-out fires.\<close>

fun fire_timer :: "timer_action \<Rightarrow> page_state \<Rightarrow> page_state" where
  "fire_timer ClearUploadProgress st = st\<lparr>uploadProgress := None\<rparr>"
| "fire_timer (FinishUpload ev) st =
     (close_source ev (st\<lparr>uploadProgress := None\<rparr>))\<lparr>uploadSseRef := None\<rparr>"

text \<open>The most recent message with role \<^verbatim>\<open>ai\<close>: its position, and the message.\<close>

definition last_ai_index :: "message list \<Rightarrow> nat option" where
  "last_ai_index ms = find (\<lambda>i. role (ms ! i) = Ai) (rev [0..<length ms])"

definition last_ai :: "message list \<Rightarrow> message option" where
  "last_ai ms = map_option (\<lambda>k. ms ! k) (last_ai_index ms)"

text \<open>The fragments that the text frames of a delivery carry under \<^verbatim>\<open>chunk\<close>, and the
  payloads of its citation frames, both in delivery order.\<close>

fun text_fragments :: "(string \<times> frame_data) list \<Rightarrow> jsval list" where
  "text_fragments [] = []"
| "text_fragments ((name, d) # frs) =
     (if name = ''text''
      then (case d of
              Json p \<Rightarrow> (case get_prop p ''chunk'' of
                           Inr c \<Rightarrow> c # text_fragments frs
                         | Inl e \<Rightarrow> text_fragments frs)
            | _ \<Rightarrow> text_fragments frs)
      else text_fragments frs)"

fun cited :: "(string \<times> frame_data) list \<Rightarrow> jsval list" where
  "cited [] = []"
| "cited ((name, d) # frs) =
     (if name = ''citation''
      then (case d of Json p \<Rightarrow> p # cited frs | _ \<Rightarrow> cited frs)
      else cited frs)"

text \<open>The page after the prompt \<^verbatim>\<open>hi\<close> was sent and the server answered with the job
  id \<^verbatim>\<open>j1\<close>; used as the concrete state of the examples.\<close>

definition example_state :: page_state where
  "example_state =
     \<lparr>prompt = [],
      messages = [\<lparr>role = User, msg_text = JStr ''hi'', citations = None\<rparr>,
                  \<lparr>role = Ai, msg_text = JStr [], citations = Some []\<rparr>],
      jobId = JStr ''j1'', uploadProgress = None, uploadedFiles = [],
      sseRef = Some 0, uploadSseRef = None,
      sources = [\<lparr>es_url = ''/api/proxy/stream/j1'', es_closed = False\<rparr>],
      streamEv = Some 0, timers = []\<rparr>"

section \<open>The proxy handler\<close>

text \<open>
  The catch-all API route \<^verbatim>\<open>handler(req, res)\<close> that relays a request to the backend.
  \<^verbatim>\<open>req.query.path\<close> and a value of \<^verbatim>\<open>req.headers\<close> are a string, an array of
  strings, or undefined.
\<close>

datatype str_or_array = Undef | Str string | Strs "string list"

record proxy_request =
  pr_method :: "string option"
  pr_url :: "string option"
  pr_path :: str_or_array
  pr_headers :: "(string \<times> str_or_array) list"

record fetch_request =
  f_url :: string
  f_method :: "string option"
  f_headers :: "(string \<times> string) list"
  f_body :: bool

text \<open>One \<^verbatim>\<open>reader.read()\<close>: a chunk, the end of the body, or a rejection.\<close>

datatype read_result = Chunk string | ReadDone | ReadFailed

text \<open>The backend's response: \<open>b_headers\<close> are the name and value pairs in the order
  \<^verbatim>\<open>response.headers.forEach\<close> visits them (a Headers object visits each
  \<^verbatim>\<open>set-cookie\<close> header on its own, so that name can come more than once);
  \<open>b_body\<close> is \<open>None\<close> for a null body, else the results of the successive reads.\<close>

record backend_response =
  b_status :: nat
  b_headers :: "(string \<times> string) list"
  b_body :: "read_result list option"

datatype fetch_result = FetchFailed | Response backend_response

text \<open>The response object \<^verbatim>\<open>res\<close> handed to the handler.\<close>

record server_response =
  statusCode :: nat
  res_headers :: "(string \<times> string) list"
  headersSent :: bool
  written :: "string list"
  ended :: bool

definition fresh_response :: server_response where
  "fresh_response =
     \<lparr>statusCode = 200, res_headers = [], headersSent = False, written = [], ended = False\<rparr>"

text \<open>The handler returned, or it is still waiting for a read that never settles.\<close>

datatype handler_result = Returned server_response | Suspended server_response

text \<open>\<^verbatim>\<open>process.env.BACKEND_URL || 'http://localhost:8000'\<close>.\<close>

definition BACKEND :: "string option \<Rightarrow> string" where
  "BACKEND env =
     (case env of
        None \<Rightarrow> ''http://localhost:8000''
      | Some u \<Rightarrow> if u = [] then ''http://localhost:8000'' else u)"

text \<open>\<^verbatim>\<open>s.split(c)\<close> and \<^verbatim>\<open>xs.join(sep)\<close>.\<close>

fun split_on :: "char \<Rightarrow> string \<Rightarrow> string list" where
  "split_on c [] = [[]]"
| "split_on c (x # xs) =
     (if x = c then [] # split_on c xs
      else (case split_on c xs of
              [] \<Rightarrow> [[x]]
            | p # ps \<Rightarrow> (x # p) # ps))"

fun join_with :: "string \<Rightarrow> string list \<Rightarrow> string" where
  "join_with sep [] = []"
| "join_with sep [s] = s"
| "join_with sep (s # t # ss) = s @ sep @ join_with sep (t # ss)"

definition pathStr :: "str_or_array \<Rightarrow> string" where
  "pathStr path =
     (case path of
        Strs xs \<Rightarrow> join_with ''/'' xs
      | Str s \<Rightarrow> s
      | Undef \<Rightarrow> ''undefined'')"

definition queryString :: "string option \<Rightarrow> string" where
  "queryString url =
     (case url of
        None \<Rightarrow> []
      | Some u \<Rightarrow> (case split_on (CHR ''?'') u of
                     a # q # rest \<Rightarrow> q
                   | _ \<Rightarrow> []))"

definition target_url :: "string \<Rightarrow> proxy_request \<Rightarrow> string" where
  "target_url backend req =
     backend @ ''/'' @ pathStr (pr_path req) @
       (if queryString (pr_url req) \<noteq> [] then ''?'' @ queryString (pr_url req) else [])"

text \<open>The request headers copied into the fetch, all but \<^verbatim>\<open>host\<close> (lines 46-55).\<close>

fun copy_headers :: "(string \<times> str_or_array) list \<Rightarrow> (string \<times> string) list" where
  "copy_headers [] = []"
| "copy_headers ((key, v) # hs) =
     (if key = ''host'' then copy_headers hs
      else (case v of
              Strs vs \<Rightarrow> map (\<lambda>x. (key, x)) vs @ copy_headers hs
            | Str x \<Rightarrow> (if x \<noteq> [] then (key, x) # copy_headers hs else copy_headers hs)
            | Undef \<Rightarrow> copy_headers hs))"

definition fetch_options :: "string \<Rightarrow> proxy_request \<Rightarrow> fetch_request" where
  "fetch_options backend req =
     \<lparr>f_url = target_url backend req, f_method = pr_method req,
      f_headers = copy_headers (pr_headers req),
      f_body = (pr_method req \<noteq> Some ''GET'' \<and> pr_method req \<noteq> Some ''HEAD'')\<rparr>"

text \<open>\<^verbatim>\<open>res.setHeader\<close> replaces a header of the same name and otherwise adds one;
  \<^verbatim>\<open>res.write\<close> and \<^verbatim>\<open>res.end\<close> send the head with the first byte.\<close>

fun setHeader :: "string \<Rightarrow> string \<Rightarrow> (string \<times> string) list \<Rightarrow> (string \<times> string) list" where
  "setHeader k v [] = [(k, v)]"
| "setHeader k v ((k', v') # hs) = (if k' = k then (k, v) # hs else (k', v') # setHeader k v hs)"

definition res_write :: "string \<Rightarrow> server_response \<Rightarrow> server_response" where
  "res_write v res = res\<lparr>headersSent := True, written := written res @ [v]\<rparr>"

definition res_end :: "server_response \<Rightarrow> server_response" where
  "res_end res = res\<lparr>headersSent := True, ended := True\<rparr>"

text \<open>Lines 71-74: every response header but \<^verbatim>\<open>content-encoding\<close> and
  \<^verbatim>\<open>content-length\<close>.\<close>

fun forward_headers :: "(string \<times> string) list \<Rightarrow> server_response \<Rightarrow> server_response" where
  "forward_headers [] res = res"
| "forward_headers ((key, v) # hs) res =
     (if key = ''content-encoding'' \<or> key = ''content-length'' then forward_headers hs res
      else forward_headers hs (res\<lparr>res_headers := setHeader key v (res_headers res)\<rparr>))"

definition proxy_error_body :: string where
  \<open>proxy_error_body = ''{"error":"Proxy error"}''\<close>

text \<open>The \<^verbatim>\<open>catch\<close> block (lines 89-94). The headers that the framework's
  \<^verbatim>\<open>json()\<close> adds are not modelled.\<close>

definition on_proxy_error :: "server_response \<Rightarrow> server_response" where
  "on_proxy_error res =
     (if \<not> headersSent res
      then res_end (res_write proxy_error_body (res\<lparr>statusCode := 500\<rparr>))
      else res)"

text \<open>The read loop (lines 80-85) over the results of the successive reads.\<close>

fun pipe_body :: "read_result list \<Rightarrow> server_response \<Rightarrow> handler_result" where
  "pipe_body [] res = Suspended res"
| "pipe_body (Chunk v # rs) res = pipe_body rs (res_write v res)"
| "pipe_body (ReadDone # rs) res = Returned (res_end res)"
| "pipe_body (ReadFailed # rs) res = Returned (on_proxy_error res)"

definition handler ::
  "string \<Rightarrow> (fetch_request \<Rightarrow> fetch_result) \<Rightarrow> proxy_request \<Rightarrow> server_response \<Rightarrow> handler_result" where
  "handler backend fetch req res =
     (case fetch (fetch_options backend req) of
        FetchFailed \<Rightarrow> Returned (on_proxy_error res)
      | Response response \<Rightarrow>
          (let res1 = forward_headers (b_headers response) (res\<lparr>statusCode := b_status response\<rparr>)
           in (case b_body response of
                 Some reads \<Rightarrow> pipe_body reads res1
               | None \<Rightarrow> Returned (res_end res1))))"

text \<open>A header that the handler passes on: any but \<^verbatim>\<open>content-encoding\<close> and
  \<^verbatim>\<open>content-length\<close>.\<close>

definition forwarded :: "string \<times> string \<Rightarrow> bool" where
  "forwarded h = (fst h \<noteq> ''content-encoding'' \<and> fst h \<noteq> ''content-length'')"

text \<open>A request for the stream of job \<^verbatim>\<open>j1\<close>, and a backend that answers exactly the
  fetch this request leads to; used as the concrete input of the examples.\<close>

definition example_request :: proxy_request where
  "example_request =
     \<lparr>pr_method = Some ''GET'', pr_url = Some ''/api/proxy/stream/j1?x=1'',
      pr_path = Strs [''stream'', ''j1''],
      pr_headers = [(''host'', Str ''localhost:3000''), (''accept'', Str ''text/event-stream'')]\<rparr>"

definition example_backend_response :: backend_response where
  "example_backend_response =
     \<lparr>b_status = 200,
      b_headers = [(''content-length'', ''5''), (''content-type'', ''text/plain'')],
      b_body = Some [Chunk ''he'', Chunk ''llo'', ReadDone]\<rparr>"

text \<open>A response that sets two cookies.\<close>

definition two_cookies_response :: backend_response where
  "two_cookies_response =
     \<lparr>b_status = 200,
      b_headers = [(''content-type'', ''text/plain''), (''set-cookie'', ''a=1''), (''set-cookie'', ''b=2'')],
      b_body = Some [Chunk ''ok'', ReadDone]\<rparr>"

definition example_fetch :: "fetch_request \<Rightarrow> fetch_result" where
  "example_fetch q =
     (if q = \<lparr>f_url = ''http://localhost:8000/stream/j1?x=1'', f_method = Some ''GET'',
               f_headers = [(''accept'', ''text/event-stream'')], f_body = False\<rparr>
      then Response example_backend_response else FetchFailed)"

section \<open>The job registry\<close>

text \<open>
  Modelled from the spec: the Job Registry and its event log (spec sections 3 and 4.1).
  The backend that implements it (\<^verbatim>\<open>backend/main.py\<close>) is not among the sources, so
  \<open>create_job\<close> and \<open>append_event\<close> follow the contract of section 4.1 word by word.
\<close>

datatype job_kind = Generate | Upload

datatype job_status = Pending | Running | Done | Failed

record citation =
  c_seq :: nat
  c_title :: string
  c_document :: string
  c_page :: nat

datatype event =
    ToolStep string
  | TextChunk string
  | CitationEvent citation
  | Progress string nat
  | DoneEvent string
  | ErrorEvent string

fun is_terminal :: "event \<Rightarrow> bool" where
  "is_terminal (DoneEvent s) = True"
| "is_terminal (ErrorEvent m) = True"
| "is_terminal e = False"

record job =
  j_kind :: job_kind
  j_status :: job_status
  j_created :: nat
  j_log :: "event list"
  j_terminal :: bool
  j_completed :: "nat option"

record registry =
  next_id :: nat
  jobs :: "(nat \<times> job) list"

datatype registry_error = UnknownJob | JobAlreadyTerminal | ResourceExhausted

definition empty_registry :: registry where
  "empty_registry = \<lparr>next_id = 0, jobs = []\<rparr>"

text \<open>Modelled from the spec: \<^verbatim>\<open>create_job(kind) -> job_id\<close> allocates a unique
  identity, status pending and an empty log; it fails only when the registry is at its
  capacity.\<close>

definition create_job :: "nat \<Rightarrow> job_kind \<Rightarrow> nat \<Rightarrow> registry \<Rightarrow> registry_error + nat \<times> registry" where
  "create_job capacity kind now reg =
     (if capacity \<le> length (jobs reg) then Inl ResourceExhausted
      else Inr (next_id reg,
                reg\<lparr>next_id := Suc (next_id reg),
                    jobs := jobs reg @
                      [(next_id reg,
                        \<lparr>j_kind = kind, j_status = Pending, j_created = now, j_log = [],
                         j_terminal = False, j_completed = None\<rparr>)]\<rparr>))"

fun store_job :: "nat \<Rightarrow> job \<Rightarrow> (nat \<times> job) list \<Rightarrow> (nat \<times> job) list" where
  "store_job jid j [] = []"
| "store_job jid j ((i, old) # js) = (if i = jid then (i, j) # js else (i, old) # store_job jid j js)"

text \<open>Modelled from the spec: \<^verbatim>\<open>append_event(job_id, event)\<close> fails with UnknownJob if
  the id is absent, with JobAlreadyTerminal if a terminal event was already appended, and
  otherwise appends; a terminal event flips the status to done or failed and records the
  completion time.\<close>

definition append_event :: "nat \<Rightarrow> event \<Rightarrow> nat \<Rightarrow> registry \<Rightarrow> registry_error + registry" where
  "append_event jid e now reg =
     (case map_of (jobs reg) jid of
        None \<Rightarrow> Inl UnknownJob
      | Some j \<Rightarrow>
          if list_ex is_terminal (j_log j) then Inl JobAlreadyTerminal
          else Inr (reg\<lparr>jobs := store_job jid
                      (if is_terminal e
                       then j\<lparr>j_log := j_log j @ [e],
                              j_status := (case e of DoneEvent s \<Rightarrow> Done | _ \<Rightarrow> Failed),
                              j_terminal := True, j_completed := Some now\<rparr>
                       else j\<lparr>j_log := j_log j @ [e]\<rparr>)
                      (jobs reg)\<rparr>))"

text \<open>The calls made to the registry, in order, each with the time of the call; a call
  that fails leaves the registry as it was.\<close>

datatype registry_call = Create job_kind nat | Append nat event nat

fun call :: "nat \<Rightarrow> registry_call \<Rightarrow> registry \<Rightarrow> registry" where
  "call capacity (Create kind now) reg =
     (case create_job capacity kind now reg of Inl err \<Rightarrow> reg | Inr (jid, reg') \<Rightarrow> reg')"
| "call capacity (Append jid e now) reg =
     (case append_event jid e now reg of Inl err \<Rightarrow> reg | Inr reg' \<Rightarrow> reg')"

definition calls :: "nat \<Rightarrow> registry_call list \<Rightarrow> registry \<Rightarrow> registry" where
  "calls capacity cs reg = fold (call capacity) cs reg"

definition log_of :: "registry \<Rightarrow> nat \<Rightarrow> event list option" where
  "log_of reg jid = map_option j_log (map_of (jobs reg) jid)"

text \<open>A log is sealed when no event but its last is terminal; a registry is sealed when
  every log it holds is.\<close>

definition sealed :: "event list \<Rightarrow> bool" where
  "sealed l = (\<not> list_ex is_terminal (butlast l))"

definition registry_sealed :: "registry \<Rightarrow> bool" where
  "registry_sealed reg = list_all (\<lambda>ij. sealed (j_log (snd ij))) (jobs reg)"

section \<open>Properties\<close>

subsection \<open>The last AI message\<close>

lemma update_last_ai_find:
  "update_last_ai n f ms =
     (case find (\<lambda>i. role (ms ! i) = Ai) (rev [0..<n]) of
        None \<Rightarrow> Inr ms
      | Some k \<Rightarrow> (case f (ms ! k) of Inl e \<Rightarrow> Inl e | Inr m \<Rightarrow> Inr (ms[k := m])))"
  by (induction n) simp_all

lemma update_last_ai_index:
  "update_last_ai (length ms) f ms =
     (case last_ai_index ms of
        None \<Rightarrow> Inr ms
      | Some k \<Rightarrow> (case f (ms ! k) of Inl e \<Rightarrow> Inl e | Inr m \<Rightarrow> Inr (ms[k := m])))"
  by (simp add: update_last_ai_find last_ai_index_def)

lemma find_hit: "find P xs = Some x \<Longrightarrow> x \<in> set xs \<and> P x"
  by (induction xs) (auto split: if_splits)

lemma last_ai_index_bound:
  assumes "last_ai_index ms = Some k"
  shows "k < length ms \<and> role (ms ! k) = Ai"
proof -
  from assms have "k \<in> set (rev [0..<length ms]) \<and> role (ms ! k) = Ai"
    unfolding last_ai_index_def by (rule find_hit)
  then show ?thesis by simp
qed

lemma last_ai_index_update:
  assumes "k < length ms" and "role m = role (ms ! k)"
  shows "last_ai_index (ms[k := m]) = last_ai_index ms"
proof -
  have "find (\<lambda>i. role (ms[k := m] ! i) = Ai) (rev [0..<length ms]) =
        find (\<lambda>i. role (ms ! i) = Ai) (rev [0..<length ms])"
    using assms by (intro find_cong refl) (auto simp: nth_list_update)
  then show ?thesis by (simp add: last_ai_index_def)
qed

lemma send_example:
  "send (Inr (JObj [(''job_id'', JStr ''j1'')])) (initial_state\<lparr>prompt := ''hi''\<rparr>) =
     ([\<lparr>req_method = ''POST'', req_url = ''/api/proxy/generate'',
        req_headers = [(''Content-Type'', ''application/json'')],
        req_body = JObj [(''prompt'', JStr ''hi'')]\<rparr>], Inr example_state)"
  by (simp add: send_def js_trim_def js_whitespace_def initial_state_def set_jobId_def
      stream_cleanup_def stream_effect_def example_state_def)

lemma last_ai_example: "last_ai_index (messages example_state) = Some 1"
  by (simp add: last_ai_index_def example_state_def)

subsection \<open>Single frames\<close>

lemma gen_frame_text: "gen_frame ev (''text'', d) st = on_text d st"
  by (simp add: gen_frame_def gen_listeners_def)

lemma gen_frame_citation: "gen_frame ev (''citation'', d) st = on_citation d st"
  by (simp add: gen_frame_def gen_listeners_def)

lemma on_text_step:
  assumes "last_ai_index (messages st) = Some k" and "get_prop p ''chunk'' = Inr c"
  shows "on_text (Json p) st =
           Inr (st\<lparr>messages := (messages st)
                  [k := (messages st ! k)\<lparr>msg_text := js_plus (msg_text (messages st ! k)) c\<rparr>]\<rparr>)"
  using assms by (simp add: on_text_def update_last_ai_index append_chunk_def)

lemma on_citation_step:
  assumes "last_ai_index (messages st) = Some k"
  shows "on_citation (Json p) st =
           Inr (st\<lparr>messages := (messages st)
                  [k := (messages st ! k)
                     \<lparr>citations := Some (citations_or_empty (messages st ! k) @ [p])\<rparr>]\<rparr>)"
  using assms by (simp add: on_citation_def update_last_ai_index append_citation_def)

lemma js_plus_string: "js_plus (JStr s) (JStr c) = JStr (s @ c)"
  by (simp add: js_plus_def)

subsection \<open>Text fragments\<close>

lemma text_frames_at:
  assumes "list_all2 (\<lambda>p c. get_prop p ''chunk'' = Inr (JStr c)) ps cs"
    and "last_ai_index (messages st) = Some k"
    and "msg_text (messages st ! k) = JStr t"
  shows "\<exists>st'. gen_frames ev (map (\<lambda>p. (''text'', Json p)) ps) st = Inr st' \<and>
               last_ai_index (messages st') = Some k \<and>
               msg_text (messages st' ! k) = JStr (t @ concat cs)"
  using assms
proof (induction ps cs arbitrary: st t rule: list_all2_induct)
  case Nil
  then show ?case by simp
next
  case (Cons p ps c cs)
  let ?m = "(messages st ! k)\<lparr>msg_text := js_plus (msg_text (messages st ! k)) (JStr c)\<rparr>"
  let ?st = "st\<lparr>messages := (messages st)[k := ?m]\<rparr>"
  from Cons.prems have k: "k < length (messages st)"
    by (simp add: last_ai_index_bound)
  have step: "gen_frame ev (''text'', Json p) st = Inr ?st"
    using Cons.hyps(1) Cons.prems(1) by (simp add: gen_frame_text on_text_step)
  have idx: "last_ai_index (messages ?st) = Some k"
    using k Cons.prems(1) by (simp add: last_ai_index_update)
  have grown: "msg_text (messages ?st ! k) = JStr (t @ c)"
    using k Cons.prems(2) by (simp add: js_plus_string)
  from Cons.IH [OF idx grown] obtain st' where
    "gen_frames ev (map (\<lambda>p. (''text'', Json p)) ps) ?st = Inr st'"
    and "last_ai_index (messages st') = Some k"
    and "msg_text (messages st' ! k) = JStr ((t @ c) @ concat cs)"
    by blast
  then show ?case using step by simp
qed

text \<open>
  Claim C2. Text frames delivered in order on a generation stream, each carrying a string
  fragment under \<^verbatim>\<open>chunk\<close>, leave the most recent AI message with its previous text
  followed by the fragments in delivery order: none is dropped, reordered or merged. The
  AI message that \<^verbatim>\<open>send\<close> creates starts with the empty text.
\<close>

theorem text_frames_concatenate:
  assumes "last_ai (messages st) = Some m" and "msg_text m = JStr t"
    and "list_all2 (\<lambda>p c. get_prop p ''chunk'' = Inr (JStr c)) ps cs"
  shows "\<exists>st'. gen_frames ev (map (\<lambda>p. (''text'', Json p)) ps) st = Inr st' \<and>
               map_option msg_text (last_ai (messages st')) = Some (JStr (t @ concat cs))"
proof -
  from assms(1) obtain k where k: "last_ai_index (messages st) = Some k"
    and m: "m = messages st ! k"
    by (auto simp: last_ai_def)
  from text_frames_at [OF assms(3) k] assms(2) m show ?thesis
    by (fastforce simp: last_ai_def)
qed

theorem text_frames_concatenate_witness:
  "\<exists>st'. gen_frames 0 [(''text'', Json (JObj [(''chunk'', JStr ''Hel'')])),
                        (''text'', Json (JObj [(''chunk'', JStr ''lo''), (''n'', JNum 2)]))]
                      example_state = Inr st' \<and>
         map_option msg_text (last_ai (messages st')) = Some (JStr ''Hello'')"
  using text_frames_concatenate
    [of example_state "\<lparr>role = Ai, msg_text = JStr [], citations = Some []\<rparr>" "[]"
      "[JObj [(''chunk'', JStr ''Hel'')], JObj [(''chunk'', JStr ''lo''), (''n'', JNum 2)]]"
      "[''Hel'', ''lo'']" 0]
  by (simp add: last_ai_def last_ai_example) (simp add: example_state_def)

subsection \<open>Citations\<close>

lemma citation_frames_at:
  assumes "last_ai_index (messages st) = Some k"
  shows "\<exists>st'. gen_frames ev (map (\<lambda>c. (''citation'', Json c)) cs) st = Inr st' \<and>
               last_ai_index (messages st') = Some k \<and>
               citations_or_empty (messages st' ! k) = citations_or_empty (messages st ! k) @ cs"
  using assms
proof (induction cs arbitrary: st)
  case Nil
  then show ?case by simp
next
  case (Cons c cs)
  let ?m = "(messages st ! k)\<lparr>citations := Some (citations_or_empty (messages st ! k) @ [c])\<rparr>"
  let ?st = "st\<lparr>messages := (messages st)[k := ?m]\<rparr>"
  from Cons.prems have k: "k < length (messages st)"
    by (simp add: last_ai_index_bound)
  have step: "gen_frame ev (''citation'', Json c) st = Inr ?st"
    using Cons.prems by (simp add: gen_frame_citation on_citation_step)
  have idx: "last_ai_index (messages ?st) = Some k"
    using k Cons.prems by (simp add: last_ai_index_update)
  have grown: "citations_or_empty (messages ?st ! k) = citations_or_empty (messages st ! k) @ [c]"
    using k by (simp add: citations_or_empty_def)
  from Cons.IH [OF idx] obtain st' where
    "gen_frames ev (map (\<lambda>c. (''citation'', Json c)) cs) ?st = Inr st'"
    and "last_ai_index (messages st') = Some k"
    and "citations_or_empty (messages st' ! k) = citations_or_empty (messages ?st ! k) @ cs"
    by blast
  then show ?case using step grown by simp
qed

lemma badges_from_numbers:
  assumes "list_all2 (\<lambda>c t. get_prop c ''title'' = Inr t) cs ts"
  shows "badges_from i cs = Inr (zip [Suc i..<Suc i + length cs] ts)"
  using assms
proof (induction cs ts arbitrary: i rule: list_all2_induct)
  case Nil
  then show ?case by simp
next
  case (Cons c cs t ts)
  have "[Suc i..<Suc i + length (c # cs)] = Suc i # [Suc (Suc i)..<Suc (Suc i) + length cs]"
    using upt_rec [of "Suc i" "Suc i + length (c # cs)"] by simp
  then show ?case using Cons by simp
qed

text \<open>
  Claim C5. An answer starts with no citation; after k citation frames the most recent AI
  message holds the k payloads in delivery order and its badges are numbered 1 to k in that
  order, the i-th badge showing the title of the i-th citation received.
\<close>

theorem citations_numbered_in_delivery_order:
  assumes "last_ai (messages st) = Some m" and "citations_or_empty m = []"
    and "list_all2 (\<lambda>c t. get_prop c ''title'' = Inr t) cs ts"
  shows "\<exists>st' m'. gen_frames ev (map (\<lambda>c. (''citation'', Json c)) cs) st = Inr st' \<and>
               last_ai (messages st') = Some m' \<and>
               citations_or_empty m' = cs \<and>
               citation_badges m' = Inr (zip [1..<Suc (length cs)] ts)"
proof -
  from assms(1) obtain k where k: "last_ai_index (messages st) = Some k"
    and m: "m = messages st ! k"
    by (auto simp: last_ai_def)
  from citation_frames_at [OF k, of ev cs] obtain st' where
    run: "gen_frames ev (map (\<lambda>c. (''citation'', Json c)) cs) st = Inr st'"
    and idx: "last_ai_index (messages st') = Some k"
    and cit: "citations_or_empty (messages st' ! k) = citations_or_empty (messages st ! k) @ cs"
    by blast
  have ai: "role (messages st' ! k) = Ai"
    using idx by (simp add: last_ai_index_bound)
  have "citation_badges (messages st' ! k) = Inr (zip [1..<Suc (length cs)] ts)"
    using ai cit assms(2) m badges_from_numbers [OF assms(3), of 0]
    by (simp add: citation_badges_def)
  then show ?thesis using run idx cit assms(2) m
    by (simp add: last_ai_def)
qed

theorem citations_numbered_in_delivery_order_witness:
  "\<exists>st' m'. gen_frames 0 [(''citation'', Json (JObj [(''id'', JNum 1), (''title'', JStr ''a.pdf'')])),
                           (''citation'', Json (JObj [(''id'', JNum 2), (''title'', JStr ''b.pdf'')]))]
                example_state = Inr st' \<and>
       last_ai (messages st') = Some m' \<and>
       citations_or_empty m' = [JObj [(''id'', JNum 1), (''title'', JStr ''a.pdf'')],
                                JObj [(''id'', JNum 2), (''title'', JStr ''b.pdf'')]] \<and>
       citation_badges m' = Inr [(1, JStr ''a.pdf''), (2, JStr ''b.pdf'')]"
proof -
  let ?c1 = "JObj [(''id'', JNum 1), (''title'', JStr ''a.pdf'')]"
  let ?c2 = "JObj [(''id'', JNum 2), (''title'', JStr ''b.pdf'')]"
  have a: "last_ai (messages example_state) = Some \<lparr>role = Ai, msg_text = JStr [], citations = Some []\<rparr>"
    by (simp add: last_ai_def last_ai_example) (simp add: example_state_def)
  have b: "citations_or_empty \<lparr>role = Ai, msg_text = JStr [], citations = Some []\<rparr> = []"
    by (simp add: citations_or_empty_def)
  have c: "list_all2 (\<lambda>c t. get_prop c ''title'' = Inr t) [?c1, ?c2] [JStr ''a.pdf'', JStr ''b.pdf'']"
    by simp
  have z: "zip [1..<Suc (length [?c1, ?c2])] [JStr ''a.pdf'', JStr ''b.pdf''] =
             [(1, JStr ''a.pdf''), (2, JStr ''b.pdf'')]"
    by (simp add: upt_rec)
  from citations_numbered_in_delivery_order [OF a b c, of 0] show ?thesis
    unfolding z by (simp only: list.map)
qed

subsection \<open>Interleaved frames\<close>

lemma last_ai_index_snoc:
  assumes "role m \<noteq> Ai"
  shows "last_ai_index (ms @ [m]) = last_ai_index ms"
proof -
  have "find (\<lambda>i. role ((ms @ [m]) ! i) = Ai) (rev [0..<length ms]) =
        find (\<lambda>i. role (ms ! i) = Ai) (rev [0..<length ms])"
    by (intro find_cong refl) (auto simp: nth_append)
  with assms show ?thesis by (simp add: last_ai_index_def)
qed

lemma messages_close_source: "messages (close_source ev st) = messages st"
  by (simp add: close_source_def)

lemma messages_set_jobId: "messages (set_jobId v st) = messages st"
  by (simp add: set_jobId_def stream_effect_def stream_cleanup_def messages_close_source Let_def
      split: option.splits)

lemma gen_frame_step:
  assumes "gen_frame ev fr st = Inr st'" and "last_ai_index (messages st) = Some k"
  shows "last_ai_index (messages st') = Some k \<and>
         msg_text (messages st' ! k) = foldl js_plus (msg_text (messages st ! k)) (text_fragments [fr]) \<and>
         citations_or_empty (messages st' ! k) = citations_or_empty (messages st ! k) @ cited [fr]"
proof -
  obtain name d where fr: "fr = (name, d)" by (cases fr)
  from assms(2) have k: "k < length (messages st)" by (simp add: last_ai_index_bound)
  consider (fragment) "name = ''text''" | (tool) "name = ''tool''" | (citation) "name = ''citation''"
    | (finished) "name = ''done''"
    | (other) "name \<noteq> ''text''" "name \<noteq> ''tool''" "name \<noteq> ''citation''" "name \<noteq> ''done''"
    by blast
  then show ?thesis
  proof cases
    case fragment
    with assms(1) fr have run: "on_text d st = Inr st'" by (simp add: gen_frame_text)
    then obtain p c where d: "d = Json p" and c: "get_prop p ''chunk'' = Inr c"
      using assms(2)
      by (auto simp: on_text_def update_last_ai_index append_chunk_def
          split: sum.splits frame_data.splits elim: JSON_parse.elims)
    from run on_text_step [OF assms(2) c] d
    have "st' = st\<lparr>messages := (messages st)
                  [k := (messages st ! k)\<lparr>msg_text := js_plus (msg_text (messages st ! k)) c\<rparr>]\<rparr>"
      by simp
    with k assms(2) fr fragment d c show ?thesis
      by (simp add: last_ai_index_update citations_or_empty_def)
  next
    case citation
    with assms(1) fr have run: "on_citation d st = Inr st'" by (simp add: gen_frame_citation)
    then obtain p where d: "d = Json p"
      by (auto simp: on_citation_def split: sum.splits elim: JSON_parse.elims)
    from run on_citation_step [OF assms(2), of p] d
    have "st' = st\<lparr>messages := (messages st)
                  [k := (messages st ! k)
                     \<lparr>citations := Some (citations_or_empty (messages st ! k) @ [p])\<rparr>]\<rparr>"
      by simp
    with k assms(2) fr citation d show ?thesis
      by (simp add: last_ai_index_update citations_or_empty_def)
  next
    case tool
    with assms(1) fr have "on_tool d st = Inr st'"
      by (simp add: gen_frame_def gen_listeners_def)
    then obtain s where "st' = st\<lparr>messages := messages st @
                         [\<lparr>role = Tool, msg_text = s, citations = None\<rparr>]\<rparr>"
      by (auto simp: on_tool_def split: sum.splits)
    with k assms(2) fr tool show ?thesis
      by (simp add: last_ai_index_snoc nth_append)
  next
    case finished
    with assms(1) fr have "messages st' = messages st"
      by (auto simp: gen_frame_def gen_listeners_def on_done_def messages_set_jobId
          messages_close_source)
    with assms(2) fr finished show ?thesis by simp
  next
    case other
    with assms(1) fr have "st' = st" by (simp add: gen_frame_def gen_listeners_def)
    with assms(2) fr other show ?thesis by simp
  qed
qed

lemma text_fragments_Cons: "text_fragments (fr # frs) = text_fragments [fr] @ text_fragments frs"
  by (cases fr) (simp split: frame_data.splits sum.splits)

lemma cited_Cons: "cited (fr # frs) = cited [fr] @ cited frs"
  by (cases fr) (simp split: frame_data.splits)

lemma gen_frames_at:
  assumes "gen_frames ev frs st = Inr st'" and "last_ai_index (messages st) = Some k"
  shows "last_ai_index (messages st') = Some k \<and>
         msg_text (messages st' ! k) = foldl js_plus (msg_text (messages st ! k)) (text_fragments frs) \<and>
         citations_or_empty (messages st' ! k) = citations_or_empty (messages st ! k) @ cited frs"
  using assms
proof (induction frs arbitrary: st)
  case Nil
  then show ?case by simp
next
  case (Cons fr frs)
  from Cons.prems(1) obtain st1 where one: "gen_frame ev fr st = Inr st1"
    and rest: "gen_frames ev frs st1 = Inr st'"
    by (auto split: sum.splits)
  note s = gen_frame_step [OF one Cons.prems(2)]
  from s have k1: "last_ai_index (messages st1) = Some k" by simp
  from Cons.IH [OF rest k1] s show ?case
    by (simp add: text_fragments_Cons [of fr frs] cited_Cons [of fr frs])
qed

text \<open>
  Whatever frames a generation stream delivers (tool steps, citations, text, the final
  \<^verbatim>\<open>done\<close>, names without a listener), as long as no listener throws, the most recent
  AI message stays the same message and ends with its text followed by the fragments of
  the text frames, and its citations followed by the payloads of the citation frames, each
  in delivery order.
\<close>

lemma interleaved_frames_keep_order:
  assumes "gen_frames ev frs st = Inr st'" and "last_ai (messages st) = Some m"
  shows "\<exists>m'. last_ai (messages st') = Some m' \<and>
              msg_text m' = foldl js_plus (msg_text m) (text_fragments frs) \<and>
              citations_or_empty m' = citations_or_empty m @ cited frs"
proof -
  from assms(2) obtain k where k: "last_ai_index (messages st) = Some k"
    and m: "m = messages st ! k"
    by (auto simp: last_ai_def)
  from gen_frames_at [OF assms(1) k] m show ?thesis by (simp add: last_ai_def)
qed

lemma interleaved_frames_keep_order_witness:
  "\<exists>st' m'. gen_frames 0
               [(''tool'', Json (JObj [(''step'', JStr ''Searching documents'')])),
                (''citation'', Json (JObj [(''title'', JStr ''a.pdf'')])),
                (''text'', Json (JObj [(''chunk'', JStr ''Hel'')])),
                (''progress'', Json (JObj [])),
                (''citation'', Json (JObj [(''title'', JStr ''b.pdf'')])),
                (''text'', Json (JObj [(''chunk'', JStr ''lo'')]))] example_state = Inr st' \<and>
        last_ai (messages st') = Some m' \<and>
        msg_text m' = JStr ''Hello'' \<and>
        citations_or_empty m' = [JObj [(''title'', JStr ''a.pdf'')], JObj [(''title'', JStr ''b.pdf'')]]"
proof -
  let ?frs = "[(''tool'', Json (JObj [(''step'', JStr ''Searching documents'')])),
                (''citation'', Json (JObj [(''title'', JStr ''a.pdf'')])),
                (''text'', Json (JObj [(''chunk'', JStr ''Hel'')])),
                (''progress'', Json (JObj [])),
                (''citation'', Json (JObj [(''title'', JStr ''b.pdf'')])),
                (''text'', Json (JObj [(''chunk'', JStr ''lo'')]))]"
  obtain st' where run: "gen_frames 0 ?frs example_state = Inr st'"
    by (simp add: gen_frame_def gen_listeners_def on_tool_def on_text_def on_citation_def
        append_chunk_def append_citation_def example_state_def)
  have a: "last_ai (messages example_state) =
             Some \<lparr>role = Ai, msg_text = JStr [], citations = Some []\<rparr>"
    by (simp add: last_ai_def last_ai_example) (simp add: example_state_def)
  from interleaved_frames_keep_order [OF run a] run show ?thesis
    by (simp add: js_plus_def citations_or_empty_def)
qed

subsection \<open>What a text or citation frame may change\<close>

lemma update_last_ai_frame:
  assumes "update_last_ai (length ms) f ms = Inr ms'"
    and "\<And>m m'. f m = Inr m' \<Longrightarrow> role m' = role m"
  shows "case last_ai_index ms of
           None \<Rightarrow> ms' = ms
         | Some k \<Rightarrow> \<exists>m'. role m' = Ai \<and> ms' = ms[k := m']"
proof (cases "last_ai_index ms")
  case None
  with assms(1) show ?thesis by (simp add: update_last_ai_index)
next
  case (Some k)
  then have k: "k < length ms" and ai: "role (ms ! k) = Ai"
    by (simp_all add: last_ai_index_bound)
  from assms(1) Some obtain m' where m': "f (ms ! k) = Inr m'" and ms': "ms' = ms[k := m']"
    by (auto simp: update_last_ai_index split: sum.splits)
  from assms(2) [OF m'] ai have "role m' = Ai" by simp
  with Some k ms' show ?thesis by auto
qed

lemma append_chunk_role: "append_chunk p m = Inr m' \<Longrightarrow> role m' = role m"
  by (auto simp: append_chunk_def split: sum.splits)

lemma append_citation_role: "append_citation p m = Inr m' \<Longrightarrow> role m' = role m"
  by (auto simp: append_citation_def)

text \<open>
  Claim C8. A text frame or a citation frame that the page takes changes nothing but the
  most recent message with role \<^verbatim>\<open>ai\<close>, which keeps its role and its place; every
  other message and every other part of the state stay as they were. With no AI message
  in the list the list is left as it is.
\<close>

theorem text_and_citation_frames_touch_only_last_ai:
  assumes "fst fr = ''text'' \<or> fst fr = ''citation''"
    and "gen_frame ev fr st = Inr st'"
  shows "(case last_ai_index (messages st) of
            None \<Rightarrow> messages st' = messages st
          | Some k \<Rightarrow> \<exists>m'. role m' = Ai \<and> messages st' = (messages st)[k := m']) \<and>
         st'\<lparr>messages := messages st\<rparr> = st"
proof -
  obtain name d where fr: "fr = (name, d)" by (cases fr)
  from assms(1) fr consider (fragment) "name = ''text''" | (citation) "name = ''citation''" by auto
  then show ?thesis
  proof cases
    case fragment
    with assms(2) fr have "on_text d st = Inr st'" by (simp add: gen_frame_text)
    then obtain p ms' where "update_last_ai (length (messages st)) (append_chunk p) (messages st) = Inr ms'"
      and "st' = st\<lparr>messages := ms'\<rparr>"
      by (auto simp: on_text_def split: sum.splits)
    with update_last_ai_frame [OF this(1) append_chunk_role [where p = p]] show ?thesis
      by (auto split: option.splits)
  next
    case citation
    with assms(2) fr have "on_citation d st = Inr st'" by (simp add: gen_frame_citation)
    then obtain p ms' where "update_last_ai (length (messages st)) (append_citation p) (messages st) = Inr ms'"
      and "st' = st\<lparr>messages := ms'\<rparr>"
      by (auto simp: on_citation_def split: sum.splits)
    with update_last_ai_frame [OF this(1) append_citation_role [where p = p]] show ?thesis
      by (auto split: option.splits)
  qed
qed

theorem text_and_citation_frames_touch_only_last_ai_witness:
  "(\<exists>st'. gen_frame 0 (''text'', Json (JObj [(''chunk'', JStr ''Hello'')])) example_state = Inr st' \<and>
          (\<exists>m'. role m' = Ai \<and> messages st' = (messages example_state)[1 := m']) \<and>
          st'\<lparr>messages := messages example_state\<rparr> = example_state) \<and>
   (\<exists>st'. gen_frame 0 (''citation'', Json (JObj [(''title'', JStr ''a.pdf'')])) initial_state = Inr st' \<and>
          messages st' = messages initial_state \<and>
          st'\<lparr>messages := messages initial_state\<rparr> = initial_state)"
proof -
  let ?fr1 = "(''text'', Json (JObj [(''chunk'', JStr ''Hello'')]))"
  let ?fr2 = "(''citation'', Json (JObj [(''title'', JStr ''a.pdf'')]))"
  obtain st1 where r1: "gen_frame 0 ?fr1 example_state = Inr st1"
    by (simp add: gen_frame_text on_text_step [OF last_ai_example])
  obtain st2 where r2: "gen_frame 0 ?fr2 initial_state = Inr st2"
    by (simp add: gen_frame_citation on_citation_def initial_state_def)
  have none: "last_ai_index (messages initial_state) = None"
    by (simp add: last_ai_index_def initial_state_def)
  from text_and_citation_frames_touch_only_last_ai [OF _ r1]
    text_and_citation_frames_touch_only_last_ai [OF _ r2] r1 r2
  show ?thesis by (simp add: last_ai_example none)
qed

subsection \<open>Sending\<close>

lemma js_trim_blank:
  assumes "list_all js_whitespace s"
  shows "js_trim s = []"
proof -
  from assms have blank: "dropWhile js_whitespace s = []"
    unfolding dropWhile_eq_Nil_conv list_all_iff .
  show ?thesis unfolding js_trim_def blank by simp
qed

text \<open>
  Claim C9. With a prompt that is empty or holds only white space, \<^verbatim>\<open>send\<close> makes no
  request and leaves the whole state, and so the messages, the job id and the prompt, as
  it was.
\<close>

theorem send_blank_prompt:
  assumes "list_all js_whitespace (prompt st)"
  shows "send reply st = ([], Inr st)"
  using js_trim_blank [OF assms] by (simp add: send_def)

theorem send_blank_prompt_witness:
  "list_all js_whitespace (prompt (example_state\<lparr>prompt := [CHR '' '', CHR 0x09, CHR 0x0A]\<rparr>)) \<and>
   send (Inr (JObj [(''job_id'', JStr ''j2'')])) (example_state\<lparr>prompt := [CHR '' '', CHR 0x09, CHR 0x0A]\<rparr>) =
     ([], Inr (example_state\<lparr>prompt := [CHR '' '', CHR 0x09, CHR 0x0A]\<rparr>))"
proof -
  have h: "list_all js_whitespace (prompt (example_state\<lparr>prompt := [CHR '' '', CHR 0x09, CHR 0x0A]\<rparr>))"
    by (simp add: js_whitespace_def)
  from h send_blank_prompt [OF h] show ?thesis by blast
qed

subsection \<open>Field names\<close>

text \<open>
  Claim C6 as stated fails: a text frame whose fragment is under \<^verbatim>\<open>text\<close> appends
  the string \<^verbatim>\<open>undefined\<close>, and a progress frame whose percentage is under
  \<^verbatim>\<open>percent\<close> shows no percentage.
\<close>

theorem spec_field_names_not_read:
  "gen_frame 0 (''text'', Json (JObj [(''text'', JStr ''Hello'')])) example_state =
     Inr (example_state\<lparr>messages :=
            [\<lparr>role = User, msg_text = JStr ''hi'', citations = None\<rparr>,
             \<lparr>role = Ai, msg_text = JStr ''undefined'', citations = Some []\<rparr>]\<rparr>) \<and>
   upload_frame 0 (''progress'', Json (JObj [(''text'', JStr ''Parsing''), (''percent'', JNum 50)]))
       example_state =
     Inr (example_state\<lparr>uploadProgress := Some \<lparr>step = JStr ''Parsing'', progress = JUndefined\<rparr>\<rparr>)"
  by (simp add: gen_frame_text on_text_step [OF last_ai_example] js_plus_def
      upload_frame_def upload_listeners_def upload_on_progress_def)
     (simp add: example_state_def)

text \<open>
  Claim C6, amended. The page reads the fragment of a text frame from the field
  \<^verbatim>\<open>chunk\<close>, and the label and the percentage of a progress frame from the fields
  \<^verbatim>\<open>text\<close> and \<^verbatim>\<open>progress\<close>; no other field of the payload has any effect.
\<close>

theorem fragment_and_percentage_fields:
  assumes "last_ai_index (messages st) = Some k"
    and "get_prop p ''chunk'' = Inr c"
    and "get_prop q ''text'' = Inr t" and "get_prop q ''progress'' = Inr n"
  shows "gen_frame ev (''text'', Json p) st =
           Inr (st\<lparr>messages := (messages st)
                  [k := (messages st ! k)\<lparr>msg_text := js_plus (msg_text (messages st ! k)) c\<rparr>]\<rparr>) \<and>
         upload_frame ev' (''progress'', Json q) st =
           Inr (st\<lparr>uploadProgress := Some \<lparr>step = t, progress = n\<rparr>\<rparr>)"
  using assms
  by (simp add: gen_frame_text on_text_step upload_frame_def upload_listeners_def
      upload_on_progress_def)

theorem fragment_and_percentage_fields_witness:
  "gen_frame 0 (''text'', Json (JObj [(''chunk'', JStr ''Hello''), (''text'', JStr ''no'')])) example_state =
     Inr (example_state\<lparr>messages :=
            [\<lparr>role = User, msg_text = JStr ''hi'', citations = None\<rparr>,
             \<lparr>role = Ai, msg_text = JStr ''Hello'', citations = Some []\<rparr>]\<rparr>) \<and>
   upload_frame 0 (''progress'', Json (JObj [(''text'', JStr ''Parsing''), (''progress'', JNum 50),
                                             (''percent'', JNum 7)])) example_state =
     Inr (example_state\<lparr>uploadProgress := Some \<lparr>step = JStr ''Parsing'', progress = JNum 50\<rparr>\<rparr>)"
  using fragment_and_percentage_fields [OF last_ai_example,
      of "JObj [(''chunk'', JStr ''Hello''), (''text'', JStr ''no'')]" "JStr ''Hello''"
         "JObj [(''text'', JStr ''Parsing''), (''progress'', JNum 50), (''percent'', JNum 7)]"
         "JStr ''Parsing''" "JNum 50" 0 0]
  by (simp add: js_plus_def) (simp add: example_state_def)

subsection \<open>The end of an upload\<close>

text \<open>
  Claim C7. On the \<^verbatim>\<open>done\<close> frame of an upload stream the page appends the value of
  the payload's \<^verbatim>\<open>filename\<close> field to the list of uploaded files and shows the
  progress 100.
\<close>

theorem upload_done_names_file:
  assumes "get_prop p ''filename'' = Inr f"
  shows "\<exists>st'. upload_frame ev (''done'', Json p) st = Inr st' \<and>
               uploadedFiles st' = uploadedFiles st @ [f] \<and>
               map_option progress (uploadProgress st') = Some (JNum 100)"
  using assms
  by (cases p) (simp_all add: upload_frame_def upload_listeners_def upload_on_done_def)

theorem upload_done_names_file_witness:
  "\<exists>st'. upload_frame 0 (''done'', Json (JObj [(''message'', JStr ''Indexed''), (''filename'', JStr ''paper.pdf'')]))
             initial_state = Inr st' \<and>
         uploadedFiles st' = [JStr ''paper.pdf''] \<and>
         map_option progress (uploadProgress st') = Some (JNum 100)"
  using upload_done_names_file [of "JObj [(''message'', JStr ''Indexed''), (''filename'', JStr ''paper.pdf'')]"
      "JStr ''paper.pdf''" 0 initial_state]
  by (simp add: initial_state_def)

subsection \<open>Frame names\<close>

text \<open>
  Claim C1 as stated fails: a frame named \<^verbatim>\<open>text-chunk\<close> has no listener on the
  generation stream and is dropped.
\<close>

theorem text_chunk_frame_not_handled:
  "map_of (gen_listeners 0) ''text-chunk'' = None \<and>
   gen_frame 0 (''text-chunk'', Json (JObj [(''chunk'', JStr ''Hello'')])) example_state =
     Inr example_state"
  by (simp add: gen_frame_def gen_listeners_def)

text \<open>
  Claim C1, amended. On a generation stream the page listens to the frame names
  \<^verbatim>\<open>text\<close>, \<^verbatim>\<open>tool\<close>, \<^verbatim>\<open>citation\<close> and \<^verbatim>\<open>done\<close>; frames named
  \<^verbatim>\<open>tool-step\<close>, \<^verbatim>\<open>text-chunk\<close> or \<^verbatim>\<open>progress\<close> change nothing there. On
  an upload stream it listens to \<^verbatim>\<open>progress\<close>, \<^verbatim>\<open>done\<close> and \<^verbatim>\<open>error\<close>.
\<close>

theorem stream_frame_names:
  "map_of (gen_listeners ev) ''text'' = Some on_text \<and>
   map_of (gen_listeners ev) ''tool'' = Some on_tool \<and>
   map_of (gen_listeners ev) ''citation'' = Some on_citation \<and>
   map_of (gen_listeners ev) ''done'' = Some (on_done ev) \<and>
   gen_frame ev (''tool-step'', d) st = Inr st \<and>
   gen_frame ev (''text-chunk'', d) st = Inr st \<and>
   gen_frame ev (''progress'', d) st = Inr st \<and>
   map fst (upload_listeners ev') = [''progress'', ''done'', ''error'']"
  by (simp add: gen_frame_def gen_listeners_def upload_listeners_def)

subsection \<open>Terminal frames\<close>

text \<open>
  Claim C3 at an \<^verbatim>\<open>error\<close> frame: the generation stream has no listener for it, so
  the EventSource stays open and the job id stays set.
\<close>

theorem error_frame_leaves_stream_open:
  "gen_frame 0 (''error'', Json (JObj [(''message'', JStr ''model failed'')])) example_state =
     Inr example_state \<and>
   sseRef example_state = Some 0 \<and>
   \<not> es_closed (sources example_state ! 0) \<and>
   jobId example_state = JStr ''j1'' \<and>
   statusLabel example_state = ''Streaming response...''"
  by (simp add: gen_frame_def gen_listeners_def statusLabel_def) (simp add: example_state_def)

text \<open>The \<^verbatim>\<open>done\<close> frame does end the stream: its EventSource is closed, the ref
  and the job id are cleared and the status reads Ready.\<close>

lemma done_frame_closes_stream:
  assumes "ev < length (sources st)"
  shows "\<exists>st'. gen_frame ev (''done'', d) st = Inr st' \<and> es_closed (sources st' ! ev) \<and>
               sseRef st' = None \<and> jobId st' = JNull \<and> statusLabel st' = ''Ready''"
  using assms
  by (auto simp: gen_frame_def gen_listeners_def on_done_def set_jobId_def stream_cleanup_def
      stream_effect_def close_source_def statusLabel_def nth_list_update split: option.splits)

lemma done_frame_closes_stream_witness:
  "\<exists>st'. gen_frame 0 (''done'', NoData) example_state = Inr st' \<and> es_closed (sources st' ! 0) \<and>
         sseRef st' = None \<and> jobId st' = JNull \<and> statusLabel st' = ''Ready''"
  using done_frame_closes_stream [of 0 example_state NoData]
  by (simp add: example_state_def)

subsection \<open>The proxy\<close>

lemma setHeader_new: "k \<notin> fst ` set hs \<Longrightarrow> setHeader k v hs = hs @ [(k, v)]"
  by (induction hs) auto

lemma forward_headers_fields:
  "statusCode (forward_headers hs res) = statusCode res \<and>
   headersSent (forward_headers hs res) = headersSent res \<and>
   written (forward_headers hs res) = written res \<and>
   ended (forward_headers hs res) = ended res"
  by (induction hs res rule: forward_headers.induct) simp_all

lemma forward_headers_distinct:
  assumes "distinct (map fst hs)" and "fst ` set (res_headers res) \<inter> fst ` set hs = {}"
  shows "res_headers (forward_headers hs res) = res_headers res @ filter forwarded hs"
  using assms
proof (induction hs res rule: forward_headers.induct)
  case (1 res)
  then show ?case by simp
next
  case (2 key v hs res)
  show ?case
  proof (cases "key = ''content-encoding'' \<or> key = ''content-length''")
    case True
    with 2 show ?thesis by (auto simp: forwarded_def)
  next
    case False
    from "2.prems" have fresh: "key \<notin> fst ` set (res_headers res)" by auto
    let ?res = "res\<lparr>res_headers := setHeader key v (res_headers res)\<rparr>"
    have "fst ` set (res_headers ?res) \<inter> fst ` set hs = {}"
      using "2.prems" fresh by (auto simp: setHeader_new)
    with "2.IH"(2) [OF False] "2.prems" False fresh show ?thesis
      by (simp add: setHeader_new forwarded_def)
  qed
qed

lemma forward_headers_fresh:
  assumes "distinct (map fst hs)"
  shows "forward_headers hs (fresh_response\<lparr>statusCode := s\<rparr>) =
           \<lparr>statusCode = s, res_headers = filter forwarded hs, headersSent = False,
            written = [], ended = False\<rparr>"
proof -
  let ?r = "forward_headers hs (fresh_response\<lparr>statusCode := s\<rparr>)"
  have "res_headers ?r = filter forwarded hs"
    using forward_headers_distinct [OF assms, of "fresh_response\<lparr>statusCode := s\<rparr>"]
    by (simp add: fresh_response_def)
  moreover have "statusCode ?r = s \<and> headersSent ?r = False \<and> written ?r = [] \<and> ended ?r = False"
    using forward_headers_fields [of hs "fresh_response\<lparr>statusCode := s\<rparr>"]
    by (simp add: fresh_response_def)
  ultimately show ?thesis by (cases ?r) simp
qed

lemma pipe_body_chunks:
  "pipe_body (map Chunk cs @ ReadDone # rest) res =
     Returned (res\<lparr>headersSent := True, written := written res @ cs, ended := True\<rparr>)"
  by (induction cs arbitrary: res) (simp_all add: res_end_def res_write_def)

text \<open>
  For a backend response whose headers are visited under distinct names, the handler
  answers with the backend's status, with every header but \<^verbatim>\<open>content-encoding\<close> and
  \<^verbatim>\<open>content-length\<close>, in the order visited, and with the chunks of the body in the
  order read, and ends the response; a null body gives an empty one. When the fetch fails
  it answers 500 with the JSON body \<^verbatim>\<open>{"error":"Proxy error"}\<close>.
\<close>

theorem proxy_relays_response:
  "(fetch (fetch_options backend req) = Response r \<and> distinct (map fst (b_headers r)) \<and>
      b_body r = Some (map Chunk chunks @ ReadDone # rest) \<longrightarrow>
    handler backend fetch req fresh_response =
      Returned \<lparr>statusCode = b_status r, res_headers = filter forwarded (b_headers r),
                headersSent = True, written = chunks, ended = True\<rparr>) \<and>
   (fetch (fetch_options backend req) = Response r \<and> distinct (map fst (b_headers r)) \<and>
      b_body r = None \<longrightarrow>
    handler backend fetch req fresh_response =
      Returned \<lparr>statusCode = b_status r, res_headers = filter forwarded (b_headers r),
                headersSent = True, written = [], ended = True\<rparr>) \<and>
   (fetch (fetch_options backend req) = FetchFailed \<longrightarrow>
    handler backend fetch req fresh_response =
      Returned \<lparr>statusCode = 500, res_headers = [], headersSent = True,
                written = [proxy_error_body], ended = True\<rparr>)"
  by (simp add: handler_def forward_headers_fresh pipe_body_chunks res_end_def res_write_def
      on_proxy_error_def)
     (simp add: fresh_response_def)

lemma example_fetch_options:
  "fetch_options (BACKEND None) example_request =
     \<lparr>f_url = ''http://localhost:8000/stream/j1?x=1'', f_method = Some ''GET'',
      f_headers = [(''accept'', ''text/event-stream'')], f_body = False\<rparr>"
  by (simp add: fetch_options_def BACKEND_def example_request_def target_url_def pathStr_def
      queryString_def)

theorem proxy_relays_response_witness:
  "handler (BACKEND None) example_fetch example_request fresh_response =
     Returned \<lparr>statusCode = 200, res_headers = [(''content-type'', ''text/plain'')],
               headersSent = True, written = [''he'', ''llo''], ended = True\<rparr> \<and>
   handler (BACKEND None) (\<lambda>q. FetchFailed) example_request fresh_response =
     Returned \<lparr>statusCode = 500, res_headers = [], headersSent = True,
               written = [proxy_error_body], ended = True\<rparr>"
proof -
  have ok: "example_fetch (fetch_options (BACKEND None) example_request) = Response example_backend_response"
    by (simp add: example_fetch_options example_fetch_def)
  have names: "distinct (map fst (b_headers example_backend_response))"
    by (simp add: example_backend_response_def)
  have body: "b_body example_backend_response = Some (map Chunk [''he'', ''llo''] @ ReadDone # [])"
    by (simp add: example_backend_response_def)
  have kept: "filter forwarded (b_headers example_backend_response) = [(''content-type'', ''text/plain'')]"
    by (simp add: example_backend_response_def forwarded_def)
  from proxy_relays_response [of example_fetch "BACKEND None" example_request
      example_backend_response "[''he'', ''llo'']" "[]"] ok names body
  have "handler (BACKEND None) example_fetch example_request fresh_response =
     Returned \<lparr>statusCode = b_status example_backend_response,
               res_headers = filter forwarded (b_headers example_backend_response),
               headersSent = True, written = [''he'', ''llo''], ended = True\<rparr>"
    by blast
  moreover from proxy_relays_response [of "\<lambda>q. FetchFailed" "BACKEND None" example_request]
  have "handler (BACKEND None) (\<lambda>q. FetchFailed) example_request fresh_response =
     Returned \<lparr>statusCode = 500, res_headers = [], headersSent = True,
               written = [proxy_error_body], ended = True\<rparr>"
    by blast
  ultimately show ?thesis by (simp add: kept) (simp add: example_backend_response_def)
qed

text \<open>
  Claim C10 at a response that sets two cookies: \<^verbatim>\<open>res.setHeader\<close> is called once
  for each, the second call replaces the first, and the client receives the last cookie
  only. Status, the other headers and the body are relayed.
\<close>

theorem proxy_drops_repeated_header:
  "handler (BACKEND None) (\<lambda>q. Response two_cookies_response) example_request fresh_response =
     Returned \<lparr>statusCode = 200,
               res_headers = [(''content-type'', ''text/plain''), (''set-cookie'', ''b=2'')],
               headersSent = True, written = [''ok''], ended = True\<rparr>"
  by (simp add: handler_def two_cookies_response_def fresh_response_def res_end_def res_write_def)

subsection \<open>The event log of a job\<close>

lemma sealed_count: "sealed l \<Longrightarrow> length (filter is_terminal l) \<le> 1"
proof (cases l rule: rev_cases)
  case Nil
  then show ?thesis by simp
next
  case (snoc xs x)
  assume "sealed l"
  with snoc have "filter is_terminal xs = []"
    by (simp add: sealed_def list_ex_iff filter_empty_conv)
  with snoc show ?thesis by simp
qed

lemma store_job_set: "set (store_job jid j js) \<subseteq> insert (jid, j) (set js)"
  by (induction js) (auto split: if_splits)

lemma append_event_sealed:
  assumes "registry_sealed reg" and "append_event jid e now reg = Inr reg'"
  shows "registry_sealed reg'"
proof -
  from assms(2) obtain j where j: "map_of (jobs reg) jid = Some j"
    and open_log: "\<not> list_ex is_terminal (j_log j)"
    by (auto simp: append_event_def split: option.splits if_splits)
  let ?j = "if is_terminal e
            then j\<lparr>j_log := j_log j @ [e],
                   j_status := (case e of DoneEvent s \<Rightarrow> Done | _ \<Rightarrow> Failed),
                   j_terminal := True, j_completed := Some now\<rparr>
            else j\<lparr>j_log := j_log j @ [e]\<rparr>"
  from assms(2) j open_log have reg': "jobs reg' = store_job jid ?j (jobs reg)"
    by (auto simp: append_event_def)
  have "sealed (j_log ?j)" using open_log by (simp add: sealed_def)
  with assms(1) store_job_set [of jid ?j "jobs reg"] show ?thesis
    unfolding registry_sealed_def reg' list_all_iff by auto
qed

lemma call_sealed: "registry_sealed reg \<Longrightarrow> registry_sealed (call capacity c reg)"
proof (cases c)
  case (Create kind now)
  assume "registry_sealed reg"
  then show ?thesis using Create
    by (auto simp: create_job_def registry_sealed_def sealed_def)
next
  case (Append jid e now)
  assume "registry_sealed reg"
  then show ?thesis using Append append_event_sealed [of reg jid e now]
    by (auto split: sum.splits)
qed

lemma calls_sealed: "registry_sealed reg \<Longrightarrow> registry_sealed (calls capacity cs reg)"
  unfolding calls_def by (induction cs arbitrary: reg) (simp_all add: call_sealed)

lemma log_of_sealed:
  assumes "registry_sealed reg" and "log_of reg jid = Some l"
  shows "sealed l"
proof -
  from assms(2) obtain j where "map_of (jobs reg) jid = Some j" and "l = j_log j"
    by (auto simp: log_of_def)
  then have "(jid, j) \<in> set (jobs reg)" by (simp add: map_of_SomeD)
  with assms(1) \<open>l = j_log j\<close> show ?thesis
    by (auto simp: registry_sealed_def list_all_iff)
qed

lemma append_after_terminal:
  assumes "log_of reg jid = Some l" and "list_ex is_terminal l"
  shows "append_event jid e now reg = Inl JobAlreadyTerminal"
  using assms by (auto simp: append_event_def log_of_def)

text \<open>
  Claim C4. Whatever calls were made to a registry that started empty, the log of a job
  holds at most one terminal event; and once it holds one, a further
  \<^verbatim>\<open>append_event\<close> for the job fails with JobAlreadyTerminal and the log stays as it
  is.
\<close>

theorem at_most_one_terminal_event:
  assumes "log_of (calls capacity cs empty_registry) jid = Some l"
  shows "length (filter is_terminal l) \<le> 1 \<and>
         (list_ex is_terminal l \<longrightarrow>
            append_event jid e now (calls capacity cs empty_registry) = Inl JobAlreadyTerminal \<and>
            log_of (call capacity (Append jid e now) (calls capacity cs empty_registry)) jid = Some l)"
proof -
  have "registry_sealed empty_registry"
    by (simp add: registry_sealed_def empty_registry_def)
  then have "registry_sealed (calls capacity cs empty_registry)" by (rule calls_sealed)
  with assms have "sealed l" by (rule log_of_sealed [rotated])
  then have one: "length (filter is_terminal l) \<le> 1" by (rule sealed_count)
  show ?thesis using one assms append_after_terminal [OF assms, of e now] by simp
qed

theorem at_most_one_terminal_event_witness:
  "log_of (calls 8 [Create Generate 0, Append 0 (TextChunk ''Hi'') 1, Append 0 (DoneEvent ''ok'') 2,
                    Append 0 (ErrorEvent ''late'') 3, Append 0 (TextChunk ''more'') 4] empty_registry) 0 =
     Some [TextChunk ''Hi'', DoneEvent ''ok''] \<and>
   length (filter is_terminal [TextChunk ''Hi'', DoneEvent ''ok'']) \<le> 1 \<and>
   append_event 0 (DoneEvent ''again'') 5
     (calls 8 [Create Generate 0, Append 0 (TextChunk ''Hi'') 1, Append 0 (DoneEvent ''ok'') 2,
               Append 0 (ErrorEvent ''late'') 3, Append 0 (TextChunk ''more'') 4] empty_registry) =
     Inl JobAlreadyTerminal"
proof -
  have l: "log_of (calls 8 [Create Generate 0, Append 0 (TextChunk ''Hi'') 1, Append 0 (DoneEvent ''ok'') 2,
                    Append 0 (ErrorEvent ''late'') 3, Append 0 (TextChunk ''more'') 4] empty_registry) 0 =
     Some [TextChunk ''Hi'', DoneEvent ''ok'']"
    by (simp add: calls_def create_job_def append_event_def empty_registry_def log_of_def)
  from l at_most_one_terminal_event [OF l, of "DoneEvent ''again''" 5] show ?thesis by simp
qed

end
